theory Spec2Isabelle
  imports Main "HOL-Library.Finite_Map" "HOL-Library.AList" "HOL-Library.Sublist"
begin

section \<open>Data model of the explore view\<close>

text \<open>
  The development follows
  \<^verbatim>\<open>superset-frontend/src/explore/components/ExploreViewContainer/index.jsx\<close>.
  A control value is opaque JavaScript data that the component only ever compares.
  Objects are finite maps from property names to values, so that HOL equality on
  \<open>jsval\<close> is deep equality that does not look at the order of the keys, as lodash's
  \<^verbatim>\<open>isEqual\<close> does not.
\<close>

datatype jsval =
    JUndefined
  | JNull
  | JBool bool
  | JNum int
  | JStr string
  | JArr "jsval list"
  | JObj "(string, jsval) fmap"

text \<open>
  A control, with the fields the component reads. \<^verbatim>\<open>validationErrors\<close> may be
  missing on a control (\<open>None\<close>); a missing \<^verbatim>\<open>renderTrigger\<close> or
  \<^verbatim>\<open>dontRefreshOnChange\<close> is falsy and is \<open>False\<close> here.
\<close>

record control =
  val :: jsval
  validationErrors :: "string list option"
  renderTrigger :: bool
  dontRefreshOnChange :: bool

text \<open>
  \<^verbatim>\<open>props.controls\<close>: a JavaScript object from control names to controls, kept as
  the list of its entries in key order. \<^verbatim>\<open>Object.keys\<close> is \<open>map fst\<close>,
  \<^verbatim>\<open>controls[key]\<close> is \<open>map_of controls key\<close>.
\<close>

type_synonym controls = "(string \<times> control) list"

definition objectKeys :: "(string \<times> 'a) list \<Rightarrow> string list" where
  "objectKeys obj = map fst obj"

definition objectValues :: "(string \<times> 'a) list \<Rightarrow> 'a list" where
  "objectValues obj = map snd obj"

section \<open>Value comparison\<close>

text \<open>lodash \<^verbatim>\<open>isObjectLike\<close>: not null and of \<^verbatim>\<open>typeof\<close> 'object'.\<close>

fun isObjectLike :: "jsval \<Rightarrow> bool" where
  "isObjectLike (JArr xs) = True"
| "isObjectLike (JObj m) = True"
| "isObjectLike v = False"

text \<open>lodash \<^verbatim>\<open>isEqual\<close>: deep equality.\<close>

definition isEqual :: "jsval \<Rightarrow> jsval \<Rightarrow> bool" where
  "isEqual a b = (a = b)"

text \<open>
  Modelled from the spec: the part of \<^verbatim>\<open>areObjectsEqual\<close> that ignores fields by
  name, whose body is not among the sources. The properties named in \<open>fs\<close> are
  removed from every object inside a value; a value that is not an object or an array
  has no properties and is left as it is.
\<close>

primrec omitFields :: "string list \<Rightarrow> jsval \<Rightarrow> jsval" where
  "omitFields fs JUndefined = JUndefined"
| "omitFields fs JNull = JNull"
| "omitFields fs (JBool b) = JBool b"
| "omitFields fs (JNum n) = JNum n"
| "omitFields fs (JStr s) = JStr s"
| "omitFields fs (JArr xs) = JArr (map (omitFields fs) xs)"
| "omitFields fs (JObj m) = JObj (fmdrop_set (set fs) (fmmap (omitFields fs) m))"

text \<open>
  Modelled from the spec: \<^verbatim>\<open>areObjectsEqual\<close> of \<^verbatim>\<open>src/reduxUtils\<close>, whose
  body is not among the sources. The spec describes it as deep equality, and with the
  option \<^verbatim>\<open>ignoreFields\<close> as deep equality with the named fields ignored. The
  options of the source call, \<^verbatim>\<open>{ ignoreFields: [...] }\<close>, are the list
  \<open>ignoreFields\<close>; a call without options passes \<open>[]\<close>.
\<close>

definition areObjectsEqual :: "jsval \<Rightarrow> jsval \<Rightarrow> string list \<Rightarrow> bool" where
  "areObjectsEqual obj1 obj2 ignoreFields =
     (omitFields ignoreFields obj1 = omitFields ignoreFields obj2)"

section \<open>Staleness of the chart\<close>

text \<open>
  The filter predicate of \<^verbatim>\<open>chartIsStale\<close> on one key: the key must exist in the
  last queried controls; two object-like values are compared by
  \<^verbatim>\<open>areObjectsEqual\<close> ignoring \<^verbatim>\<open>datasourceWarning\<close>, anything else by
  \<^verbatim>\<open>isEqual\<close>. The key comes from \<^verbatim>\<open>Object.keys(controls)\<close>, so
  \<^verbatim>\<open>controls[key]\<close> is always there and its \<open>None\<close> branch is never taken.
\<close>

definition staleKey :: "controls \<Rightarrow> controls \<Rightarrow> string \<Rightarrow> bool" where
  "staleKey lastQueriedControls controls key =
     (case map_of lastQueriedControls key of
        None \<Rightarrow> False
      | Some lastControl \<Rightarrow>
          (case map_of controls key of
             None \<Rightarrow> False
           | Some control \<Rightarrow>
               (let value1 = val control; value2 = val lastControl
                in if isObjectLike value1 \<and> isObjectLike value2
                   then \<not> areObjectsEqual value1 value2 [''datasourceWarning'']
                   else \<not> isEqual value1 value2)))"

definition refreshes :: "controls \<Rightarrow> string \<Rightarrow> bool" where
  "refreshes controls key =
     (case map_of controls key of
        None \<Rightarrow> False
      | Some control \<Rightarrow> \<not> renderTrigger control \<and> \<not> dontRefreshOnChange control)"

text \<open>
  \<^verbatim>\<open>chartIsStale\<close>, the memoised value. The state \<^verbatim>\<open>lastQueriedControls\<close> is
  tested for truthiness first: \<open>None\<close> stands for a falsy state.
\<close>

definition chartIsStale :: "controls option \<Rightarrow> controls \<Rightarrow> bool" where
  "chartIsStale lastQueriedControls controls =
     (case lastQueriedControls of
        None \<Rightarrow> False
      | Some lastQueried \<Rightarrow>
          (let changedControlKeys =
                 filter (staleKey lastQueried controls) (objectKeys controls)
           in list_ex (refreshes controls) changedControlKeys))"

text \<open>
  The comparison the specification names: deep equality in which the annotation field
  \<^verbatim>\<open>datasourceWarning\<close> is ignored.
\<close>

definition differsIgnoringAnnotation :: "jsval \<Rightarrow> jsval \<Rightarrow> bool" where
  "differsIgnoringAnnotation v1 v2 =
     (omitFields [''datasourceWarning''] v1 \<noteq> omitFields [''datasourceWarning''] v2)"


section \<open>Classification of control changes\<close>

text \<open>
  Reading a property of \<^verbatim>\<open>undefined\<close> throws.
\<close>

datatype jsError = TypeError

text \<open>
  \<^verbatim>\<open>props.chart.latestQueryFormData.viz_type\<close>: the name of a visualisation type, or
  \<^verbatim>\<open>undefined\<close> (\<open>None\<close>) when no query has been made. The value is a string or
  \<^verbatim>\<open>undefined\<close>, so \<^verbatim>\<open>===\<close> against it is equality of values.
\<close>

definition vizTypeValue :: "string option \<Rightarrow> jsval" where
  "vizTypeValue latestVizType =
     (case latestVizType of None \<Rightarrow> JUndefined | Some name \<Rightarrow> JStr name)"

text \<open>
  What the effect on \<^verbatim>\<open>[props.controls, props.ownState]\<close> computes inside its guard:
  the two constants \<^verbatim>\<open>changedControlKeys\<close> and \<^verbatim>\<open>displayControlsChanged\<close>, and
  the argument of the call to \<^verbatim>\<open>reRenderChart\<close>, if the call is made.
\<close>

record controlsChange =
  changedControlKeys :: "string list"
  displayControlsChanged :: "string list"
  reRenderChartWith :: "string list option"

text \<open>
  The effect that runs when the controls change. \<^verbatim>\<open>previousControls\<close> is
  \<^verbatim>\<open>usePrevious(props.controls)\<close>, \<open>None\<close> on the first render. Nothing is
  computed unless \<^verbatim>\<open>previousControls\<close> is there and the visualisation type of the
  latest query is the value of the control \<^verbatim>\<open>viz_type\<close>; reading that value throws
  when the controls have no \<^verbatim>\<open>viz_type\<close>. Inside the guard a key is kept as changed
  when \<^verbatim>\<open>previousControls[key]\<close> is defined and the two values are not equal under
  \<^verbatim>\<open>areObjectsEqual\<close>, called without options; a changed key is a display key when
  its control has \<^verbatim>\<open>renderTrigger\<close>. The call of
  \<^verbatim>\<open>fetchDatasourceMetadata\<close> of lines 452 to 459 comes before the two filters,
  does not enter them, and is left out.
\<close>

definition controlsChangeEffect ::
  "controls option \<Rightarrow> string option \<Rightarrow> controls \<Rightarrow> jsError + controlsChange option" where
  "controlsChangeEffect previousControls latestVizType controls =
     (case previousControls of
        None \<Rightarrow> Inr None
      | Some previous \<Rightarrow>
          (case map_of controls ''viz_type'' of
             None \<Rightarrow> Inl TypeError
           | Some vizType \<Rightarrow>
               if vizTypeValue latestVizType = val vizType
               then
                 (let changed =
                        filter (\<lambda>key.
                           case map_of previous key of
                             None \<Rightarrow> False
                           | Some previousControl \<Rightarrow>
                               (case map_of controls key of
                                  None \<Rightarrow> False
                                | Some control \<Rightarrow>
                                    \<not> areObjectsEqual (val control) (val previousControl) []))
                          (objectKeys controls);
                      display =
                        filter (\<lambda>key.
                           case map_of controls key of
                             None \<Rightarrow> False
                           | Some control \<Rightarrow> renderTrigger control)
                          changed
                  in Inr (Some \<lparr>changedControlKeys = changed,
                                 displayControlsChanged = display,
                                 reRenderChartWith =
                                   (if length display > 0 then Some display else None)\<rparr>))
               else Inr None))"

text \<open>
  A key is classified as changed, or as a display key, when the effect computes the
  list and the key is in it.
\<close>

definition classifiedChanged ::
  "controls option \<Rightarrow> string option \<Rightarrow> controls \<Rightarrow> string \<Rightarrow> bool" where
  "classifiedChanged previousControls latestVizType controls key =
     (case controlsChangeEffect previousControls latestVizType controls of
        Inr (Some change) \<Rightarrow> key \<in> set (changedControlKeys change)
      | Inr None \<Rightarrow> False
      | Inl error \<Rightarrow> False)"

definition classifiedDisplay ::
  "controls option \<Rightarrow> string option \<Rightarrow> controls \<Rightarrow> string \<Rightarrow> bool" where
  "classifiedDisplay previousControls latestVizType controls key =
     (case controlsChangeEffect previousControls latestVizType controls of
        Inr (Some change) \<Rightarrow> key \<in> set (displayControlsChanged change)
      | Inr None \<Rightarrow> False
      | Inl error \<Rightarrow> False)"

section \<open>Logging on render\<close>

datatype logEvent = LOG_ACTIONS_MOUNT_EXPLORER | LOG_ACTIONS_CHANGE_EXPLORE_CONTROLS

text \<open>
  The body of the component logs \<^verbatim>\<open>LOG_ACTIONS_CHANGE_EXPLORE_CONTROLS\<close> whenever
  \<^verbatim>\<open>chartIsStale\<close> is true at that render. A render pass is given by the state
  \<^verbatim>\<open>lastQueriedControls\<close> and the prop \<^verbatim>\<open>controls\<close> it sees.
\<close>

definition renderLogEvents :: "controls option \<Rightarrow> controls \<Rightarrow> logEvent list" where
  "renderLogEvents lastQueriedControls controls =
     (if chartIsStale lastQueriedControls controls
      then [LOG_ACTIONS_CHANGE_EXPLORE_CONTROLS] else [])"

fun renderPassesLog :: "(controls option \<times> controls) list \<Rightarrow> logEvent list" where
  "renderPassesLog [] = []"
| "renderPassesLog ((lastQueriedControls, controls) # passes) =
     renderLogEvents lastQueriedControls controls @ renderPassesLog passes"

text \<open>
  The number of transitions from not stale to stale in a run of render passes, the
  chart counting as not stale before the first pass.
\<close>

fun staleTransitions :: "bool \<Rightarrow> bool list \<Rightarrow> nat" where
  "staleTransitions wasStale [] = 0"
| "staleTransitions wasStale (stale # rest) =
     (if stale \<and> \<not> wasStale then 1 else 0) + staleTransitions stale rest"

definition stalePasses :: "(controls option \<times> controls) list \<Rightarrow> bool list" where
  "stalePasses passes = map (\<lambda>(lastQueriedControls, controls).
      chartIsStale lastQueriedControls controls) passes"

section \<open>The query issued on mount\<close>

text \<open>
  The calls the effects make on \<^verbatim>\<open>props.actions\<close> and on the component's own
  functions: \<^verbatim>\<open>triggerQuery(true, chartId)\<close>, \<^verbatim>\<open>setForceQuery(false)\<close>,
  \<^verbatim>\<open>addHistory({ isReplace })\<close>, \<^verbatim>\<open>setLastQueriedControls(controls)\<close>,
  \<^verbatim>\<open>updateQueryFormData\<close> (its payload comes from \<^verbatim>\<open>getFormDataFromControls\<close>,
  which is not among the sources; the argument of \<^verbatim>\<open>reRenderChart\<close> that selects
  the controls stands for it), \<^verbatim>\<open>renderTriggered\<close> (without its time stamp) and
  \<^verbatim>\<open>dynamicPluginControlsReady()\<close>.
\<close>

datatype action =
    TriggerQuery bool int
  | DynamicPluginControlsReady
  | SetForceQuery bool
  | AddHistory bool
  | SetLastQueriedControls controls
  | UpdateQueryFormData "string list option" int
  | RenderTriggered int

text \<open>
  The effect with no dependencies: \<^verbatim>\<open>hasError\<close> looks at every control of
  \<^verbatim>\<open>props.controls\<close>; the query is triggered when none has a validation error.
\<close>

definition hasError :: "controls \<Rightarrow> bool" where
  "hasError controls =
     list_ex (\<lambda>control.
        case validationErrors control of
          None \<Rightarrow> False
        | Some errors \<Rightarrow> length errors > 0)
       (objectValues controls)"

definition initialQueryEffect :: "controls \<Rightarrow> int \<Rightarrow> action list" where
  "initialQueryEffect controls chartId =
     (if \<not> hasError controls then [TriggerQuery True chartId] else [])"

text \<open>
  \<^verbatim>\<open>onQuery\<close> and \<^verbatim>\<open>reRenderChart\<close>, and the effect on \<^verbatim>\<open>[props.ownState]\<close>,
  which runs after the first render and whenever \<^verbatim>\<open>props.ownState\<close> changes, and
  calls both when \<^verbatim>\<open>props.ownState\<close> is not \<^verbatim>\<open>undefined\<close>.
\<close>

definition onQuery :: "controls \<Rightarrow> int \<Rightarrow> action list" where
  "onQuery controls chartId =
     [SetForceQuery False, TriggerQuery True chartId, AddHistory False,
      SetLastQueriedControls controls]"

definition reRenderChart :: "string list option \<Rightarrow> int \<Rightarrow> action list" where
  "reRenderChart controlsChanged chartId =
     [UpdateQueryFormData controlsChanged chartId, RenderTriggered chartId,
      AddHistory False]"

definition ownStateEffect :: "jsval \<Rightarrow> controls \<Rightarrow> int \<Rightarrow> action list" where
  "ownStateEffect ownState controls chartId =
     (if ownState \<noteq> JUndefined
      then onQuery controls chartId @ reRenderChart None chartId else [])"

text \<open>
  A query-affecting control, in the words of the specification: a control that is
  neither a render trigger nor marked \<^verbatim>\<open>dontRefreshOnChange\<close>.
\<close>

definition queryAffecting :: "control \<Rightarrow> bool" where
  "queryAffecting control = (\<not> renderTrigger control \<and> \<not> dontRefreshOnChange control)"

definition queryAffectingError :: "control \<Rightarrow> bool" where
  "queryAffectingError control =
     (queryAffecting control \<and>
      (case validationErrors control of None \<Rightarrow> False | Some errors \<Rightarrow> errors \<noteq> []))"

definition hasQueryAffectingError :: "controls \<Rightarrow> bool" where
  "hasQueryAffectingError controls = list_ex queryAffectingError (objectValues controls)"

section \<open>Sample controls\<close>

text \<open>The snapshots of the scenarios in the specification.\<close>

definition granularityDay :: controls where
  "granularityDay =
     [(''granularity'', \<lparr>val = JStr ''day'', validationErrors = None,
         renderTrigger = False, dontRefreshOnChange = False\<rparr>)]"

definition granularityWeek :: controls where
  "granularityWeek =
     [(''granularity'', \<lparr>val = JStr ''week'', validationErrors = None,
         renderTrigger = False, dontRefreshOnChange = False\<rparr>)]"

definition colorSchemeInvalid :: controls where
  "colorSchemeInvalid =
     [(''color_scheme'', \<lparr>val = JStr ''set1'', validationErrors = Some [''is not valid''],
         renderTrigger = True, dontRefreshOnChange = False\<rparr>)]"

definition granularityInvalid :: controls where
  "granularityInvalid =
     [(''granularity'', \<lparr>val = JNull, validationErrors = Some [''cannot be empty''],
         renderTrigger = False, dontRefreshOnChange = False\<rparr>)]"

text \<open>
  A table chart with a colour scheme, and the same controls after the user has chosen
  the pie chart and another colour scheme.
\<close>

definition tableControls :: controls where
  "tableControls =
     [(''viz_type'', \<lparr>val = JStr ''table'', validationErrors = None,
         renderTrigger = False, dontRefreshOnChange = False\<rparr>),
      (''color_scheme'', \<lparr>val = JStr ''set1'', validationErrors = None,
         renderTrigger = True, dontRefreshOnChange = False\<rparr>)]"

definition pieControls :: controls where
  "pieControls =
     [(''viz_type'', \<lparr>val = JStr ''pie'', validationErrors = None,
         renderTrigger = False, dontRefreshOnChange = False\<rparr>),
      (''color_scheme'', \<lparr>val = JStr ''set2'', validationErrors = None,
         renderTrigger = True, dontRefreshOnChange = False\<rparr>)]"


section \<open>Persisting the query definition\<close>

text \<open>
  A plain JavaScript object whose properties are enumerated, in insertion order.
  Assigning \<^verbatim>\<open>obj[key] = value\<close> is \<^const>\<open>AList.update\<close>: the value is
  replaced in place when the key exists and appended otherwise.
\<close>

type_synonym jsobject = "(string \<times> jsval) list"

text \<open>JavaScript truthiness, as tested by \<^verbatim>\<open>if (chartId)\<close>.\<close>

fun truthy :: "jsval \<Rightarrow> bool" where
  "truthy JUndefined = False"
| "truthy JNull = False"
| "truthy (JBool b) = b"
| "truthy (JNum n) = (n \<noteq> 0)"
| "truthy (JStr s) = (s \<noteq> [])"
| "truthy (JArr xs) = True"
| "truthy (JObj m) = True"

text \<open>
  The form data, with the two properties \<^verbatim>\<open>updateHistory\<close> reads.
  \<^verbatim>\<open>url_params\<close> is \<open>None\<close> when the property is missing or falsy, the case in
  which the source falls back to \<^verbatim>\<open>{}\<close>.
\<close>

record formData =
  slice_id :: jsval
  url_params :: "jsobject option"
  otherFields :: jsobject

text \<open>
  The names in \<^verbatim>\<open>URL_PARAMS\<close> and the list \<^verbatim>\<open>RESERVED_CHART_URL_PARAMS\<close> of
  \<^verbatim>\<open>src/constants\<close>, and the path \<^verbatim>\<open>ensureAppRoot('/explore')\<close> of
  \<^verbatim>\<open>src/utils/pathUtils\<close>, are not among the sources: they are parameters here.
\<close>

record urlConstants =
  sliceIdName :: string
  datasourceIdName :: string
  datasourceTypeName :: string
  formDataKeyName :: string
  standaloneName :: string
  RESERVED_CHART_URL_PARAMS :: "string list"
  exploreRoot :: string

text \<open>
  What one run of \<^verbatim>\<open>updateHistory\<close> reads from the browser and from the remote
  store: the entries of \<^verbatim>\<open>new URLSearchParams(window.location.search)\<close>, the value
  of \<^verbatim>\<open>getUrlParam(URL_PARAMS.formDataKey)\<close>, whether the awaited
  \<^verbatim>\<open>postFormData\<close> resolves (with which key) or rejects, whether the awaited
  \<^verbatim>\<open>putFormData\<close> resolves or rejects, and \<^verbatim>\<open>window.location.pathname\<close> as
  it is once the awaited call has returned.
\<close>

record browser =
  locationSearch :: "(string \<times> string) list"
  formDataKeyParam :: jsval
  postFormDataResult :: "string option"
  putFormDataResult :: bool
  pathnameAfterPersist :: string

text \<open>
  The URL is built by \<^verbatim>\<open>mountExploreUrl\<close> of \<^verbatim>\<open>src/explore/exploreUtils\<close>,
  which is not among the sources; a URL is kept as the three arguments of that call.
\<close>

datatype exploreUrl = MountExploreUrl "string option" jsobject bool

text \<open>
  The calls \<^verbatim>\<open>updateHistory\<close> makes, in the order it makes them. The arguments are
  those of the source: \<^verbatim>\<open>postFormData(datasourceId, datasourceType, formData, chartId,
  tabId)\<close>, \<^verbatim>\<open>putFormData(datasourceId, datasourceType, key, formData, chartId, tabId)\<close>
  and \<^verbatim>\<open>window.history[stateModifier](payload, title, url)\<close>.
\<close>

datatype effect =
    PostFormData jsval jsval formData jsval jsval
  | PutFormData jsval jsval jsval formData jsval jsval
  | ReplaceState formData jsval exploreUrl
  | PushState formData jsval exploreUrl
  | LoggingWarn

fun isRemotePersist :: "effect \<Rightarrow> bool" where
  "isRemotePersist (PostFormData d t f c tab) = True"
| "isRemotePersist (PutFormData d t k f c tab) = True"
| "isRemotePersist e = False"

fun isHistoryMutation :: "effect \<Rightarrow> bool" where
  "isHistoryMutation (ReplaceState p t u) = True"
| "isHistoryMutation (PushState p t u) = True"
| "isHistoryMutation e = False"

text \<open>\<^verbatim>\<open>Object.fromEntries\<close>: a later entry with the same key wins.\<close>

definition fromEntries :: "(string \<times> jsval) list \<Rightarrow> jsobject" where
  "fromEntries entries = foldl (\<lambda>obj (key, value). AList.update key value obj) [] entries"

text \<open>The object literal \<^verbatim>\<open>{ ...base, ...obj }\<close>.\<close>

definition spread :: "jsobject \<Rightarrow> jsobject \<Rightarrow> jsobject" where
  "spread base obj = foldl (\<lambda>acc (key, value). AList.update key value acc) base obj"

text \<open>
  The object \<^verbatim>\<open>additionalParam\<close>: the parameters of the address bar, then the
  chart id or else the datasource id and type, then every entry of
  \<^verbatim>\<open>url_params\<close> whose key is not reserved.
\<close>

definition additionalParam ::
  "urlConstants \<Rightarrow> browser \<Rightarrow> formData \<Rightarrow> jsval \<Rightarrow> jsval \<Rightarrow> jsobject" where
  "additionalParam K b formData datasourceId datasourceType =
     (let chartId = slice_id formData;
          fromBar = fromEntries (map (\<lambda>(key, value). (key, JStr value)) (locationSearch b));
          identified =
            (if truthy chartId
             then AList.update (sliceIdName K) chartId fromBar
             else AList.update (datasourceTypeName K) datasourceType
                    (AList.update (datasourceIdName K) datasourceId fromBar));
          urlParams = (case url_params formData of None \<Rightarrow> [] | Some ps \<Rightarrow> ps)
      in foldl (\<lambda>obj (key, value).
                  if key \<notin> set (RESERVED_CHART_URL_PARAMS K)
                  then AList.update key value obj else obj)
           identified urlParams)"

text \<open>
  The second argument of \<^verbatim>\<open>mountExploreUrl\<close>:
  \<^verbatim>\<open>{ [URL_PARAMS.formDataKey.name]: key, ...additionalParam }\<close>.
\<close>

definition exploreUrlParams ::
  "urlConstants \<Rightarrow> browser \<Rightarrow> formData \<Rightarrow> jsval \<Rightarrow> jsval \<Rightarrow> jsval \<Rightarrow> jsobject" where
  "exploreUrlParams K b formData datasourceId datasourceType key =
     spread [(formDataKeyName K, key)]
       (additionalParam K b formData datasourceId datasourceType)"

text \<open>
  The part after the \<^verbatim>\<open>await\<close>: the history is touched only when the path still
  starts with the explore route.
\<close>

definition alterHistory ::
  "urlConstants \<Rightarrow> browser \<Rightarrow> formData \<Rightarrow> jsval \<Rightarrow> jsval \<Rightarrow> bool \<Rightarrow> bool \<Rightarrow> jsval \<Rightarrow>
   (formData \<Rightarrow> jsval \<Rightarrow> exploreUrl \<Rightarrow> effect) \<Rightarrow> jsval \<Rightarrow> effect list" where
  "alterHistory K b formData datasourceId datasourceType standalone force title
     stateModifier key =
     (if prefix (exploreRoot K) (pathnameAfterPersist b)
      then [stateModifier formData title
              (MountExploreUrl (if standalone then Some (standaloneName K) else None)
                 (exploreUrlParams K b formData datasourceId datasourceType key)
                 force)]
      else [])"

text \<open>
  One run of the function that \<^verbatim>\<open>updateHistory\<close> debounces. A rejected promise
  is caught and logged as a warning. The payload \<^verbatim>\<open>{ ...formData }\<close> is a copy of
  the form data and has the same content.
\<close>

definition updateHistory ::
  "urlConstants \<Rightarrow> browser \<Rightarrow> formData \<Rightarrow> jsval \<Rightarrow> jsval \<Rightarrow> bool \<Rightarrow> bool \<Rightarrow> bool \<Rightarrow>
   jsval \<Rightarrow> jsval \<Rightarrow> effect list" where
  "updateHistory K b formData datasourceId datasourceType isReplace standalone force
     title tabId =
     (let chartId = slice_id formData
      in if isReplace
         then PostFormData datasourceId datasourceType formData chartId tabId #
              (case postFormDataResult b of
                 None \<Rightarrow> [LoggingWarn]
               | Some key \<Rightarrow>
                   alterHistory K b formData datasourceId datasourceType standalone force
                     title ReplaceState (JStr key))
         else (let key = formDataKeyParam b
               in PutFormData datasourceId datasourceType key formData chartId tabId #
                  (if putFormDataResult b
                   then alterHistory K b formData datasourceId datasourceType standalone
                          force title PushState key
                   else [LoggingWarn])))"

text \<open>Whether the awaited call to the remote store resolves.\<close>

definition remotePersistResolves :: "browser \<Rightarrow> bool \<Rightarrow> bool" where
  "remotePersistResolves b isReplace =
     (if isReplace then postFormDataResult b \<noteq> None else putFormDataResult b)"

text \<open>
  Sample constants, with the parameter names the explore URL uses and the reserved
  names the specification lists, and a sample form data.
\<close>

definition sampleConstants :: urlConstants where
  "sampleConstants =
     \<lparr>sliceIdName = ''slice_id'', datasourceIdName = ''datasource_id'',
      datasourceTypeName = ''datasource_type'', formDataKeyName = ''form_data_key'',
      standaloneName = ''standalone'',
      RESERVED_CHART_URL_PARAMS =
        [''form_data_key'', ''slice_id'', ''datasource_id'', ''datasource_type''],
      exploreRoot = ''/explore''\<rparr>"

definition sampleFormData :: formData where
  "sampleFormData =
     \<lparr>slice_id = JNum 9,
      url_params = Some [(''foo'', JStr ''baz''), (''slice_id'', JNum 1)],
      otherFields = [(''viz_type'', JStr ''table'')]\<rparr>"

definition sampleBrowser :: "string \<Rightarrow> browser" where
  "sampleBrowser pathname =
     \<lparr>locationSearch = [(''form_data_key'', ''old''), (''foo'', ''bar'')],
      formDataKeyParam = JStr ''old'',
      postFormDataResult = Some ''fresh'',
      putFormDataResult = True,
      pathnameAfterPersist = pathname\<rparr>"


section \<open>Hooks across render passes\<close>

text \<open>
  React runs the function passed to \<^verbatim>\<open>useEffect\<close> after the first render, and
  after a later render when the dependency array differs from the one of the previous
  render. \<open>lastDeps\<close> is the dependency array of the previous render, \<open>None\<close>
  before the first.
\<close>

fun effectDue :: "'d option \<Rightarrow> 'd \<Rightarrow> bool" where
  "effectDue None deps = True"
| "effectDue (Some lastDeps) deps = (lastDeps \<noteq> deps)"

text \<open>
  Modelled from the spec: \<^verbatim>\<open>usePrevious\<close> of \<^verbatim>\<open>@superset-ui/core\<close>, which is not
  among the sources. The spec reads it as the value of the last pass ("was true last
  pass"): the hook returns what its argument was on the previous render, and
  \<^verbatim>\<open>undefined\<close> on the first. The argument of the previous render is kept as
  \<open>Some v\<close>, and \<open>None\<close> before the first render.
\<close>

definition usePrevious :: "jsval option \<Rightarrow> jsval" where
  "usePrevious previous = (case previous of None \<Rightarrow> JUndefined | Some v \<Rightarrow> v)"

section \<open>The plugin load effect\<close>

text \<open>
  An entry of \<^verbatim>\<open>dynamicPluginContext.dynamicPlugins\<close>; \<^verbatim>\<open>mounting\<close> may be
  missing from it.
\<close>

record dynamicPlugin =
  mounting :: "bool option"

text \<open>\<^verbatim>\<open>dynamicPlugin && dynamicPlugin.mounting\<close>\<close>

definition isDynamicPluginLoading :: "dynamicPlugin option \<Rightarrow> jsval" where
  "isDynamicPluginLoading dynamicPlugin =
     (case dynamicPlugin of
        None \<Rightarrow> JUndefined
      | Some plugin \<Rightarrow> (case mounting plugin of None \<Rightarrow> JUndefined | Some m \<Rightarrow> JBool m))"

definition pluginLoadEffect :: "jsval \<Rightarrow> jsval \<Rightarrow> action list" where
  "pluginLoadEffect wasLoading isLoading =
     (if truthy wasLoading \<and> \<not> truthy isLoading then [DynamicPluginControlsReady] else [])"

text \<open>
  The actions dispatched by the effect in each of a run of render passes, the passes
  given by the entry of the selected visualisation type that each one sees. The
  effect depends on \<^verbatim>\<open>[isDynamicPluginLoading]\<close>; \<open>previous\<close> is that value on
  the previous pass, read by \<^verbatim>\<open>usePrevious\<close> and by the dependency check alike.
\<close>

fun pluginLoadPasses :: "jsval option \<Rightarrow> dynamicPlugin option list \<Rightarrow> action list list" where
  "pluginLoadPasses previous [] = []"
| "pluginLoadPasses previous (dynamicPlugin # rest) =
     (let isLoading = isDynamicPluginLoading dynamicPlugin;
          wasLoading = usePrevious previous
      in (if effectDue previous isLoading
          then pluginLoadEffect wasLoading isLoading else []) #
         pluginLoadPasses (Some isLoading) rest)"

text \<open>The plugin is there and \<^verbatim>\<open>mounting\<close> is true.\<close>

definition mountingTrue :: "dynamicPlugin option \<Rightarrow> bool" where
  "mountingTrue dynamicPlugin =
     (case dynamicPlugin of None \<Rightarrow> False | Some plugin \<Rightarrow> mounting plugin = Some True)"

section \<open>The listeners on window and document\<close>

datatype eventTarget = Window | Document

datatype eventType = Popstate | Keydown

text \<open>
  A handler is a closure made by \<^verbatim>\<open>useCallback\<close>; only its identity matters to the
  listener lists, and a natural number stands for it.
\<close>

type_synonym handler = nat

type_synonym listeners = "eventTarget \<times> eventType \<Rightarrow> handler list"

datatype domCall =
    AddEventListener eventTarget eventType handler
  | RemoveEventListener eventTarget eventType handler

text \<open>
  The DOM keeps one list of listeners per target and event type. Adding a listener that
  is already in the list does nothing; removing one that is not there does nothing.
\<close>

fun domStep :: "domCall \<Rightarrow> listeners \<Rightarrow> listeners" where
  "domStep (AddEventListener target type h) ls =
     ls((target, type) :=
          (if h \<in> set (ls (target, type)) then ls (target, type)
           else ls (target, type) @ [h]))"
| "domStep (RemoveEventListener target type h) ls =
     ls((target, type) := removeAll h (ls (target, type)))"

fun domSteps :: "domCall list \<Rightarrow> listeners \<Rightarrow> listeners" where
  "domSteps [] ls = ls"
| "domSteps (c # cs) ls = domSteps cs (domStep c ls)"

text \<open>The listener lists after each call of a sequence.\<close>

fun domTrace :: "domCall list \<Rightarrow> listeners \<Rightarrow> listeners list" where
  "domTrace [] ls = []"
| "domTrace (c # cs) ls = domStep c ls # domTrace cs (domStep c ls)"

definition noListeners :: listeners where
  "noListeners = (\<lambda>source. [])"

text \<open>All listeners of one event type, on either target.\<close>

definition sourceListeners :: "eventType \<Rightarrow> listeners \<Rightarrow> handler list" where
  "sourceListeners type ls = ls (Window, type) @ ls (Document, type)"

text \<open>
  The two effects and the cleanup functions they return. The keydown effect removes
  the previous handler from \<^verbatim>\<open>window\<close> and adds the current one to
  \<^verbatim>\<open>document\<close>, as the source does.
\<close>

definition popstateEffect :: "handler option \<Rightarrow> handler \<Rightarrow> domCall list" where
  "popstateEffect previousHandlePopstate handlePopstate =
     (case previousHandlePopstate of
        None \<Rightarrow> []
      | Some previous \<Rightarrow> [RemoveEventListener Window Popstate previous]) @
     [AddEventListener Window Popstate handlePopstate]"

definition popstateCleanup :: "handler \<Rightarrow> domCall list" where
  "popstateCleanup handlePopstate = [RemoveEventListener Window Popstate handlePopstate]"

definition keydownEffect :: "handler option \<Rightarrow> handler \<Rightarrow> domCall list" where
  "keydownEffect previousHandleKeyDown handleKeydown =
     (case previousHandleKeyDown of
        None \<Rightarrow> []
      | Some previous \<Rightarrow> [RemoveEventListener Window Keydown previous]) @
     [AddEventListener Document Keydown handleKeydown]"

definition keydownCleanup :: "handler \<Rightarrow> domCall list" where
  "keydownCleanup handleKeydown = [RemoveEventListener Document Keydown handleKeydown]"

text \<open>
  What React keeps for one of these effects between render passes: the handler of the
  previous render (read by \<^verbatim>\<open>usePrevious\<close>, modelled from the spec as above), the
  dependency array \<^verbatim>\<open>[handler, previousHandler]\<close> of the previous render, and the
  calls of the cleanup function returned when the effect last ran.
\<close>

record effectState =
  previousHandler :: "handler option"
  lastDeps :: "(handler \<times> handler option) option"
  pendingCleanup :: "domCall list"

definition unmounted :: effectState where
  "unmounted = \<lparr>previousHandler = None, lastDeps = None, pendingCleanup = []\<rparr>"

text \<open>
  One render pass of one effect: when the effect is due, React first runs the cleanup of
  its last run and then the effect. The result is the cleanup calls, the calls of the
  effect, and the state kept for the next pass.
\<close>

definition effectPass ::
  "(handler option \<Rightarrow> handler \<Rightarrow> domCall list) \<Rightarrow> (handler \<Rightarrow> domCall list) \<Rightarrow>
   handler \<Rightarrow> effectState \<Rightarrow> domCall list \<times> domCall list \<times> effectState" where
  "effectPass effect cleanup h st =
     (let previous = previousHandler st; deps = (h, previous)
      in if effectDue (lastDeps st) deps
         then (pendingCleanup st, effect previous h,
               \<lparr>previousHandler = Some h, lastDeps = Some deps,
                pendingCleanup = cleanup h\<rparr>)
         else ([], [], st\<lparr>previousHandler := Some h, lastDeps := Some deps\<rparr>))"

text \<open>
  One render pass of the component with the handlers \<open>(handlePopstate,
  handleKeydown)\<close> of that render: the cleanups that are due run before the effects that
  are due.
\<close>

definition renderPass ::
  "handler \<times> handler \<Rightarrow> effectState \<times> effectState \<Rightarrow>
   domCall list \<times> (effectState \<times> effectState)" where
  "renderPass handlers hooks =
     (case effectPass popstateEffect popstateCleanup (fst handlers) (fst hooks) of
        (cleanup1, calls1, popstateHook) \<Rightarrow>
          (case effectPass keydownEffect keydownCleanup (snd handlers) (snd hooks) of
             (cleanup2, calls2, keydownHook) \<Rightarrow>
               (cleanup1 @ cleanup2 @ calls1 @ calls2, (popstateHook, keydownHook))))"

fun renderPasses ::
  "(handler \<times> handler) list \<Rightarrow> effectState \<times> effectState \<Rightarrow>
   domCall list \<times> (effectState \<times> effectState)" where
  "renderPasses [] hooks = ([], hooks)"
| "renderPasses (handlers # rest) hooks =
     (case renderPass handlers hooks of
        (calls, hooks') \<Rightarrow>
          (case renderPasses rest hooks' of
             (calls', hooks'') \<Rightarrow> (calls @ calls', hooks'')))"

text \<open>Unmounting runs the pending cleanups.\<close>

definition unmount :: "effectState \<times> effectState \<Rightarrow> domCall list" where
  "unmount hooks = pendingCleanup (fst hooks) @ pendingCleanup (snd hooks)"

section \<open>Debouncing\<close>

text \<open>
  Modelled from the spec: \<^verbatim>\<open>debounce\<close> of lodash, which is not among the sources.
  The spec describes it as a single slot holding the latest pending call and a timer
  over a fixed quiescence window: a call replaces the pending one and restarts the
  window, and when the window has passed without a further call the function runs once,
  with the arguments of the pending call. Time is in milliseconds.
\<close>

record 'a debounced =
  pendingCall :: "'a option"
  lastCallTime :: nat

definition idle :: "'a debounced" where
  "idle = \<lparr>pendingCall = None, lastCallTime = 0\<rparr>"

text \<open>The timer at time \<open>now\<close>: the executed calls and the new state.\<close>

definition timerExpired :: "nat \<Rightarrow> nat \<Rightarrow> 'a debounced \<Rightarrow> 'a list \<times> 'a debounced" where
  "timerExpired wait now d =
     (case pendingCall d of
        None \<Rightarrow> ([], d)
      | Some args \<Rightarrow>
          if lastCallTime d + wait \<le> now
          then ([args], d\<lparr>pendingCall := None\<rparr>) else ([], d))"

text \<open>A call at time \<open>now\<close>: a timer that is due fires first.\<close>

definition debouncedCall ::
  "nat \<Rightarrow> nat \<Rightarrow> 'a \<Rightarrow> 'a debounced \<Rightarrow> 'a list \<times> 'a debounced" where
  "debouncedCall wait now args d =
     (case timerExpired wait now d of
        (executed, d') \<Rightarrow> (executed, d'\<lparr>pendingCall := Some args, lastCallTime := now\<rparr>))"

fun debouncedCalls ::
  "nat \<Rightarrow> (nat \<times> 'a) list \<Rightarrow> 'a debounced \<Rightarrow> 'a list \<times> 'a debounced" where
  "debouncedCalls wait [] d = ([], d)"
| "debouncedCalls wait ((now, args) # rest) d =
     (case debouncedCall wait now args d of
        (executed, d') \<Rightarrow>
          (case debouncedCalls wait rest d' of
             (executed', d'') \<Rightarrow> (executed @ executed', d'')))"

text \<open>
  \<^verbatim>\<open>updateHistory = debounce(..., 1000)\<close>: the argument lists with which the persist
  routine runs, for a sequence of timed calls followed by quiescence, when the timer of
  the last call fires.
\<close>

definition executedPersists :: "(nat \<times> 'a) list \<Rightarrow> 'a list" where
  "executedPersists calls =
     (case debouncedCalls 1000 calls idle of
        (executed, d) \<Rightarrow> executed @ fst (timerExpired 1000 (lastCallTime d + 1000) d))"

text \<open>
  A burst: the calls are in order of time and each arrives less than \<open>wait\<close> after
  the one before.
\<close>

fun burst :: "nat \<Rightarrow> (nat \<times> 'a) list \<Rightarrow> bool" where
  "burst wait [] = True"
| "burst wait [c] = True"
| "burst wait (c1 # c2 # cs) =
     (fst c1 \<le> fst c2 \<and> fst c2 < fst c1 + wait \<and> burst wait (c2 # cs))"

text \<open>No event type has more than one listener.\<close>

definition atMostOne :: "listeners \<Rightarrow> bool" where
  "atMostOne ls =
     (length (sourceListeners Popstate ls) \<le> 1 \<and> length (sourceListeners Keydown ls) \<le> 1)"

text \<open>
  The state between two render passes, once the component is mounted: each hook
  remembers the handler of the last render and holds the cleanup for it, and the
  listener lists hold that handler and nothing else.
\<close>

definition attached ::
  "handler \<times> handler \<Rightarrow> effectState \<times> effectState \<Rightarrow> listeners \<Rightarrow> bool" where
  "attached handlers hooks ls =
     (previousHandler (fst hooks) = Some (fst handlers) \<and>
      (case lastDeps (fst hooks) of None \<Rightarrow> False | Some deps \<Rightarrow> fst deps = fst handlers) \<and>
      pendingCleanup (fst hooks) = popstateCleanup (fst handlers) \<and>
      previousHandler (snd hooks) = Some (snd handlers) \<and>
      (case lastDeps (snd hooks) of None \<Rightarrow> False | Some deps \<Rightarrow> fst deps = snd handlers) \<and>
      pendingCleanup (snd hooks) = keydownCleanup (snd handlers) \<and>
      ls (Window, Popstate) = [fst handlers] \<and> ls (Document, Popstate) = [] \<and>
      ls (Window, Keydown) = [] \<and> ls (Document, Keydown) = [snd handlers])"


section \<open>Properties of the value comparison\<close>

lemma omitFields_not_objectLike: "\<not> isObjectLike v \<Longrightarrow> omitFields fs v = v"
  by (cases v) simp_all

lemma isObjectLike_omitFields: "isObjectLike (omitFields fs v) = isObjectLike v"
  by (cases v) simp_all

lemma differs_mixed:
  assumes "\<not> (isObjectLike v1 \<and> isObjectLike v2)"
  shows "differsIgnoringAnnotation v1 v2 = (v1 \<noteq> v2)"
proof (cases "isObjectLike v1")
  case False
  then have v1: "omitFields [''datasourceWarning''] v1 = v1"
    by (rule omitFields_not_objectLike)
  show ?thesis
  proof (cases "isObjectLike v2")
    case True
    then have "isObjectLike (omitFields [''datasourceWarning''] v2)"
      by (simp add: isObjectLike_omitFields)
    with False True v1 show ?thesis
      unfolding differsIgnoringAnnotation_def by metis
  next
    case v2: False
    then show ?thesis
      unfolding differsIgnoringAnnotation_def
      by (simp add: v1 omitFields_not_objectLike)
  qed
next
  case True
  with assms have v2: "\<not> isObjectLike v2" by simp
  then have e2: "omitFields [''datasourceWarning''] v2 = v2"
    by (rule omitFields_not_objectLike)
  from True have "isObjectLike (omitFields [''datasourceWarning''] v1)"
    by (simp add: isObjectLike_omitFields)
  with True v2 e2 show ?thesis
    unfolding differsIgnoringAnnotation_def by metis
qed

lemma staleKey_iff:
  "staleKey lastQueried controls key =
     (\<exists>control lastControl.
        map_of controls key = Some control \<and>
        map_of lastQueried key = Some lastControl \<and>
        differsIgnoringAnnotation (val control) (val lastControl))"
proof (cases "map_of lastQueried key")
  case None
  then show ?thesis by (simp add: staleKey_def)
next
  case (Some lastControl)
  note lq = this
  show ?thesis
  proof (cases "map_of controls key")
    case None
    with lq show ?thesis by (simp add: staleKey_def)
  next
    case (Some control)
    show ?thesis
    proof (cases "isObjectLike (val control) \<and> isObjectLike (val lastControl)")
      case True
      with lq Some show ?thesis
        by (simp add: staleKey_def areObjectsEqual_def differsIgnoringAnnotation_def)
    next
      case False
      from differs_mixed [OF False] lq Some False show ?thesis
        by (auto simp: staleKey_def isEqual_def Let_def)
    qed
  qed
qed

section \<open>Staleness detection\<close>

text \<open>
  C1. \<^verbatim>\<open>chartIsStale\<close> is true exactly when some control name that the current
  controls and the last queried controls both have carries a current value that differs
  from the last queried one under deep equality ignoring \<^verbatim>\<open>datasourceWarning\<close>,
  and that control is neither a render trigger nor marked
  \<^verbatim>\<open>dontRefreshOnChange\<close> in the current controls. When no value differs, the
  right-hand side has no witness and the result is false.
\<close>

theorem chartIsStale_iff:
  "chartIsStale (Some lastQueried) controls =
     (\<exists>key control lastControl.
        map_of lastQueried key = Some lastControl \<and>
        map_of controls key = Some control \<and>
        differsIgnoringAnnotation (val control) (val lastControl) \<and>
        \<not> renderTrigger control \<and> \<not> dontRefreshOnChange control)"
proof
  assume "chartIsStale (Some lastQueried) controls"
  then obtain key where k: "staleKey lastQueried controls key" "refreshes controls key"
    by (auto simp: chartIsStale_def list_ex_iff)
  from k(1) obtain control lastControl where
    c: "map_of controls key = Some control" "map_of lastQueried key = Some lastControl"
       "differsIgnoringAnnotation (val control) (val lastControl)"
    unfolding staleKey_iff by blast
  with k(2) have "\<not> renderTrigger control \<and> \<not> dontRefreshOnChange control"
    by (simp add: refreshes_def)
  with c show "\<exists>key control lastControl.
        map_of lastQueried key = Some lastControl \<and>
        map_of controls key = Some control \<and>
        differsIgnoringAnnotation (val control) (val lastControl) \<and>
        \<not> renderTrigger control \<and> \<not> dontRefreshOnChange control"
    by blast
next
  assume "\<exists>key control lastControl.
        map_of lastQueried key = Some lastControl \<and>
        map_of controls key = Some control \<and>
        differsIgnoringAnnotation (val control) (val lastControl) \<and>
        \<not> renderTrigger control \<and> \<not> dontRefreshOnChange control"
  then obtain key control lastControl where
    c: "map_of lastQueried key = Some lastControl" "map_of controls key = Some control"
       "differsIgnoringAnnotation (val control) (val lastControl)"
       "\<not> renderTrigger control" "\<not> dontRefreshOnChange control"
    by blast
  from c(2) have mem: "key \<in> set (objectKeys controls)"
    unfolding objectKeys_def by (simp add: map_of_SomeD image_iff) (metis fst_conv map_of_SomeD)
  from c(1,2,3) have "staleKey lastQueried controls key"
    unfolding staleKey_iff by blast
  moreover from c(2,4,5) have "refreshes controls key"
    by (simp add: refreshes_def)
  ultimately show "chartIsStale (Some lastQueried) controls"
    using mem by (auto simp: chartIsStale_def list_ex_iff)
qed

section \<open>Change classification\<close>

lemma omitFields_Nil: "omitFields [] v = v"
proof (induction v)
  case (JArr xs)
  then show ?case by (simp add: map_idI)
next
  case (JObj m)
  then have "fmmap (omitFields []) m = fmmap id m"
    by (intro fmap.map_cong) simp_all
  then show ?case by (simp add: fmap.map_id)
qed simp_all

lemma areObjectsEqual_no_options: "areObjectsEqual a b [] = (a = b)"
  by (simp add: areObjectsEqual_def omitFields_Nil)

lemma map_of_Some_key: "map_of obj key = Some x \<Longrightarrow> key \<in> set (objectKeys obj)"
  unfolding objectKeys_def by (metis fst_conv image_eqI map_of_SomeD set_map)

lemma controlsChangeEffect_guarded:
  assumes "map_of controls ''viz_type'' = Some vizType"
      and "val vizType = vizTypeValue latestVizType"
  shows "\<exists>change.
           controlsChangeEffect (Some previous) latestVizType controls = Inr (Some change) \<and>
           (\<forall>key. (key \<in> set (changedControlKeys change)) =
              (\<exists>control previousControl.
                 map_of controls key = Some control \<and>
                 map_of previous key = Some previousControl \<and>
                 val control \<noteq> val previousControl)) \<and>
           (\<forall>key. (key \<in> set (displayControlsChanged change)) =
              (key \<in> set (changedControlKeys change) \<and>
               (\<exists>control. map_of controls key = Some control \<and> renderTrigger control)))"
  using assms
  unfolding controlsChangeEffect_def
  by (auto simp: Let_def areObjectsEqual_no_options map_of_Some_key
           split: option.splits)

lemma controlsChangeEffect_unguarded:
  assumes "previousControls = None \<or> map_of controls ''viz_type'' = None \<or>
           (\<exists>vizType. map_of controls ''viz_type'' = Some vizType \<and>
              val vizType \<noteq> vizTypeValue latestVizType)"
  shows "\<not> classifiedChanged previousControls latestVizType controls key"
    and "\<not> classifiedDisplay previousControls latestVizType controls key"
  using assms
  unfolding classifiedChanged_def classifiedDisplay_def controlsChangeEffect_def
  by (auto split: option.splits sum.splits)

text \<open>
  C2, as the code has it. The classification is made only inside the guard of the
  effect: there must be previous controls, and the visualisation type of the latest
  query must be the value of the control \<^verbatim>\<open>viz_type\<close>. Under that guard a control
  name is classified as changed exactly when both snapshots have it and its two values
  are not deeply equal, so a name the previous snapshot lacks is never classified;
  outside the guard no name is classified. A name is classified as a display
  (visual-only) key exactly when it is classified as changed and its current control has
  \<^verbatim>\<open>renderTrigger\<close> set.
\<close>

theorem guarded_classification:
  "(classifiedChanged previousControls latestVizType controls key =
      (\<exists>previous vizType control previousControl.
         previousControls = Some previous \<and>
         map_of controls ''viz_type'' = Some vizType \<and>
         val vizType = vizTypeValue latestVizType \<and>
         map_of controls key = Some control \<and>
         map_of previous key = Some previousControl \<and>
         val control \<noteq> val previousControl)) \<and>
   (classifiedDisplay previousControls latestVizType controls key =
      (classifiedChanged previousControls latestVizType controls key \<and>
       (\<exists>control. map_of controls key = Some control \<and> renderTrigger control)))"
proof (cases "\<exists>previous vizType. previousControls = Some previous \<and>
         map_of controls ''viz_type'' = Some vizType \<and>
         val vizType = vizTypeValue latestVizType")
  case True
  then obtain previous vizType where g: "previousControls = Some previous"
      "map_of controls ''viz_type'' = Some vizType"
      "val vizType = vizTypeValue latestVizType"
    by blast
  from controlsChangeEffect_guarded [OF g(2,3), of previous]
  obtain change where
    c: "controlsChangeEffect (Some previous) latestVizType controls = Inr (Some change)"
    and ch: "(key \<in> set (changedControlKeys change)) =
              (\<exists>control previousControl.
                 map_of controls key = Some control \<and>
                 map_of previous key = Some previousControl \<and>
                 val control \<noteq> val previousControl)"
    and di: "(key \<in> set (displayControlsChanged change)) =
              (key \<in> set (changedControlKeys change) \<and>
               (\<exists>control. map_of controls key = Some control \<and> renderTrigger control))"
    by blast
  have "classifiedChanged previousControls latestVizType controls key =
          (key \<in> set (changedControlKeys change))"
    and "classifiedDisplay previousControls latestVizType controls key =
          (key \<in> set (displayControlsChanged change))"
    by (simp_all add: classifiedChanged_def classifiedDisplay_def g(1) c)
  with ch di g show ?thesis by auto
next
  case False
  then have "previousControls = None \<or> map_of controls ''viz_type'' = None \<or>
           (\<exists>vizType. map_of controls ''viz_type'' = Some vizType \<and>
              val vizType \<noteq> vizTypeValue latestVizType)"
    by (cases previousControls; cases "map_of controls ''viz_type''") auto
  from controlsChangeEffect_unguarded [OF this, of key] False show ?thesis
    by auto
qed

text \<open>
  C2, as the specification has it, fails. The chart was queried as a table; the user
  chooses the pie chart and another colour scheme. The control
  \<^verbatim>\<open>color_scheme\<close> is in both snapshots with two different values, and the effect
  computes nothing, because the visualisation type of the latest query is no longer that
  of the controls.
\<close>

theorem viz_type_changed_counterexample:
  "map_option val (map_of tableControls ''color_scheme'') = Some (JStr ''set1'') \<and>
   map_option val (map_of pieControls ''color_scheme'') = Some (JStr ''set2'') \<and>
   controlsChangeEffect (Some tableControls) (Some ''table'') pieControls = Inr None \<and>
   \<not> classifiedChanged (Some tableControls) (Some ''table'') pieControls ''color_scheme''"
  by (simp add: tableControls_def pieControls_def controlsChangeEffect_def
        classifiedChanged_def vizTypeValue_def)

section \<open>Stale-state logging\<close>

text \<open>
  C5, as the code has it. The change event is logged once in every render pass in
  which \<^verbatim>\<open>chartIsStale\<close> is true, and in no other pass: over a run of passes the
  log holds as many events as there are stale passes.
\<close>

theorem stale_event_each_stale_pass:
  "renderPassesLog passes =
     replicate (length (filter id (stalePasses passes)))
       LOG_ACTIONS_CHANGE_EXPLORE_CONTROLS"
  by (induction passes rule: renderPassesLog.induct)
     (simp_all add: stalePasses_def renderLogEvents_def)

lemma granularity_stale: "chartIsStale (Some granularityDay) granularityWeek"
  by (simp add: chartIsStale_def granularityDay_def granularityWeek_def objectKeys_def
        staleKey_def refreshes_def isEqual_def)

text \<open>
  C5, as the specification has it, fails. The chart is queried with granularity
  \<^verbatim>\<open>day\<close>, the control is set to \<^verbatim>\<open>week\<close> and the component renders twice in
  that state: the chart becomes stale once and the event is logged twice.
\<close>

theorem stale_event_once_counterexample:
  "staleTransitions False
     (stalePasses [(Some granularityDay, granularityDay),
                   (Some granularityDay, granularityWeek),
                   (Some granularityDay, granularityWeek)]) = 1 \<and>
   renderPassesLog [(Some granularityDay, granularityDay),
                    (Some granularityDay, granularityWeek),
                    (Some granularityDay, granularityWeek)] =
     [LOG_ACTIONS_CHANGE_EXPLORE_CONTROLS, LOG_ACTIONS_CHANGE_EXPLORE_CONTROLS]"
proof -
  have same: "\<not> chartIsStale (Some granularityDay) granularityDay"
    by (simp add: chartIsStale_def granularityDay_def objectKeys_def
          staleKey_def refreshes_def isEqual_def)
  show ?thesis
    by (simp add: stalePasses_def renderLogEvents_def granularity_stale same)
qed

section \<open>Validation errors and the query on mount\<close>

lemma hasError_iff:
  "hasError controls =
     (\<exists>name control errors.
        (name, control) \<in> set controls \<and>
        validationErrors control = Some errors \<and> errors \<noteq> [])"
  unfolding hasError_def objectValues_def list_ex_iff
  by (force split: option.splits)

text \<open>
  C9, as the code has it. The validation gate is that of the initial effect alone, and
  it looks at every control: the effect dispatches nothing at all when any control,
  query-affecting or not, has a non-empty list of validation errors, and dispatches
  exactly the query trigger otherwise. The effect on \<^verbatim>\<open>props.ownState\<close> has no
  such gate: it triggers the query exactly when \<^verbatim>\<open>props.ownState\<close> is defined,
  whatever the validation errors.
\<close>

theorem query_gate_of_initial_effect:
  "initialQueryEffect controls chartId =
     (if (\<exists>name control errors.
            (name, control) \<in> set controls \<and>
            validationErrors control = Some errors \<and> errors \<noteq> [])
      then [] else [TriggerQuery True chartId]) \<and>
   (TriggerQuery True chartId \<in> set (ownStateEffect ownState controls chartId)) =
     (ownState \<noteq> JUndefined)"
  unfolding initialQueryEffect_def hasError_iff
  by (simp add: ownStateEffect_def onQuery_def reRenderChart_def)

text \<open>
  C9, as the specification has it, fails in two ways. First, the only control with a
  validation error is the render trigger \<^verbatim>\<open>color_scheme\<close> and
  \<^verbatim>\<open>props.ownState\<close> is undefined: no query-affecting control has an error, and
  still neither effect issues a query. Second, the query-affecting control
  \<^verbatim>\<open>granularity\<close> has a validation error and \<^verbatim>\<open>props.ownState\<close> is an
  object: the initial effect is silent, and the effect on \<^verbatim>\<open>props.ownState\<close>
  triggers the query all the same.
\<close>

theorem query_gate_counterexample:
  "\<not> hasQueryAffectingError colorSchemeInvalid \<and>
   initialQueryEffect colorSchemeInvalid 7 @ ownStateEffect JUndefined colorSchemeInvalid 7
     = [] \<and>
   hasQueryAffectingError granularityInvalid \<and>
   initialQueryEffect granularityInvalid 7 @
     ownStateEffect (JObj fmempty) granularityInvalid 7 =
     [SetForceQuery False, TriggerQuery True 7, AddHistory False,
      SetLastQueriedControls granularityInvalid,
      UpdateQueryFormData None 7, RenderTriggered 7, AddHistory False]"
proof -
  have a: "\<not> hasQueryAffectingError colorSchemeInvalid"
    and b: "initialQueryEffect colorSchemeInvalid 7 = []"
    by (simp_all add: hasQueryAffectingError_def queryAffectingError_def queryAffecting_def
          colorSchemeInvalid_def objectValues_def initialQueryEffect_def hasError_def)
  have c: "hasQueryAffectingError granularityInvalid"
    and d: "initialQueryEffect granularityInvalid 7 = []"
    by (simp_all add: hasQueryAffectingError_def queryAffectingError_def queryAffecting_def
          granularityInvalid_def objectValues_def initialQueryEffect_def hasError_def)
  show ?thesis
    by (simp add: a b c d ownStateEffect_def onQuery_def reRenderChart_def)
qed

section \<open>The history synchroniser\<close>

lemma alterHistory_mutation:
  "stateModifier = ReplaceState \<or> stateModifier = PushState \<Longrightarrow>
   list_ex isHistoryMutation
     (alterHistory K b fd dsId dsType standalone force title stateModifier key) =
   prefix (exploreRoot K) (pathnameAfterPersist b)"
  by (auto simp: alterHistory_def)

lemma alterHistory_no_remote:
  "stateModifier = ReplaceState \<or> stateModifier = PushState \<Longrightarrow>
   filter isRemotePersist
     (alterHistory K b fd dsId dsType standalone force title stateModifier key) = []"
  by (auto simp: alterHistory_def)

text \<open>
  C6. In every run of \<^verbatim>\<open>updateHistory\<close> the history is mutated (by
  \<^verbatim>\<open>replaceState\<close> or \<^verbatim>\<open>pushState\<close>) exactly when the awaited remote call
  resolved and the path read after it still starts with the explore route. The remote
  call itself is issued exactly once in every run, whether or not the history is then
  touched.
\<close>

theorem navigation_guard:
  "list_ex isHistoryMutation
     (updateHistory K b fd dsId dsType isReplace standalone force title tabId) =
     (remotePersistResolves b isReplace \<and>
      prefix (exploreRoot K) (pathnameAfterPersist b)) \<and>
   length (filter isRemotePersist
     (updateHistory K b fd dsId dsType isReplace standalone force title tabId)) = 1"
  by (cases isReplace; cases "postFormDataResult b"; cases "putFormDataResult b")
     (simp_all add: updateHistory_def remotePersistResolves_def Let_def
        alterHistory_mutation alterHistory_no_remote)

text \<open>
  C7. Every run of \<^verbatim>\<open>updateHistory\<close> makes one call to the remote store and
  then at most one change of the history, and both follow \<^verbatim>\<open>isReplace\<close>. With
  \<^verbatim>\<open>isReplace\<close> the call is \<^verbatim>\<open>postFormData\<close> of the form data, which stores it
  under a key the store generates for this call and returns; the history, when it is
  changed, is changed by \<^verbatim>\<open>replaceState\<close>, with that key handed to the URL builder.
  Otherwise the key is the one read from the URL, the call is \<^verbatim>\<open>putFormData\<close> at
  that key, and the history, when it is changed, is changed by \<^verbatim>\<open>pushState\<close>. The
  history is changed exactly under the conditions of the steps that follow in the
  specification: the remote call has resolved and the path still starts with the explore
  route; otherwise it is left as it was.
\<close>

theorem replace_push_branching:
  "updateHistory K b fd dsId dsType isReplace standalone force title tabId =
     (if isReplace
      then PostFormData dsId dsType fd (slice_id fd) tabId #
           (case postFormDataResult b of
              None \<Rightarrow> [LoggingWarn]
            | Some key \<Rightarrow>
                if prefix (exploreRoot K) (pathnameAfterPersist b)
                then [ReplaceState fd title
                        (MountExploreUrl
                           (if standalone then Some (standaloneName K) else None)
                           (exploreUrlParams K b fd dsId dsType (JStr key)) force)]
                else [])
      else PutFormData dsId dsType (formDataKeyParam b) fd (slice_id fd) tabId #
           (if \<not> putFormDataResult b then [LoggingWarn]
            else if prefix (exploreRoot K) (pathnameAfterPersist b)
                 then [PushState fd title
                         (MountExploreUrl
                            (if standalone then Some (standaloneName K) else None)
                            (exploreUrlParams K b fd dsId dsType (formDataKeyParam b))
                            force)]
                 else []))"
  by (cases isReplace; cases "postFormDataResult b"; cases "putFormDataResult b")
     (simp_all add: updateHistory_def alterHistory_def Let_def)

theorem replace_push_branching_witness:
  "updateHistory sampleConstants (sampleBrowser ''/explore/'') sampleFormData
     (JNum 3) (JStr ''table'') True False False JUndefined (JStr ''tab1'') =
     [PostFormData (JNum 3) (JStr ''table'') sampleFormData (JNum 9) (JStr ''tab1''),
      ReplaceState sampleFormData JUndefined
        (MountExploreUrl None
           (exploreUrlParams sampleConstants (sampleBrowser ''/explore/'') sampleFormData
              (JNum 3) (JStr ''table'') (JStr ''fresh'')) False)] \<and>
   updateHistory sampleConstants (sampleBrowser ''/explore/'') sampleFormData
     (JNum 3) (JStr ''table'') False False False JUndefined (JStr ''tab1'') =
     [PutFormData (JNum 3) (JStr ''table'') (JStr ''old'') sampleFormData (JNum 9)
        (JStr ''tab1''),
      PushState sampleFormData JUndefined
        (MountExploreUrl None
           (exploreUrlParams sampleConstants (sampleBrowser ''/explore/'') sampleFormData
              (JNum 3) (JStr ''table'') (JStr ''old'')) False)]"
proof -
  have key: "postFormDataResult (sampleBrowser ''/explore/'') = Some ''fresh''"
    and put: "putFormDataResult (sampleBrowser ''/explore/'')"
    and old: "formDataKeyParam (sampleBrowser ''/explore/'') = JStr ''old''"
    and path: "pathnameAfterPersist (sampleBrowser ''/explore/'') = ''/explore/''"
    and chart: "slice_id sampleFormData = JNum 9"
    and root: "exploreRoot sampleConstants = ''/explore''"
    by (simp_all add: sampleBrowser_def sampleFormData_def sampleConstants_def)
  from replace_push_branching [of sampleConstants "sampleBrowser ''/explore/''"
         sampleFormData "JNum 3" "JStr ''table''" True False False JUndefined "JStr ''tab1''"]
       replace_push_branching [of sampleConstants "sampleBrowser ''/explore/''"
         sampleFormData "JNum 3" "JStr ''table''" False False False JUndefined "JStr ''tab1''"]
  show ?thesis
    by (simp add: key put old path chart root)
qed

text \<open>
  When the user has left the explore route while the remote call was in flight, the run
  ends after the remote call.
\<close>

lemma left_route_skips_navigation:
  "updateHistory sampleConstants (sampleBrowser ''/dashboard/1/'') sampleFormData
     (JNum 3) (JStr ''table'') True False False JUndefined (JStr ''tab1'') =
     [PostFormData (JNum 3) (JStr ''table'') sampleFormData (JNum 9) (JStr ''tab1'')]"
  by (simp add: updateHistory_def alterHistory_def sampleConstants_def sampleBrowser_def
        sampleFormData_def)

section \<open>Parameters of the explore URL\<close>

lemma map_of_foldl_update:
  "map_of (foldl (\<lambda>obj (key, value). if P key then AList.update key value obj else obj) a xs) k =
     (case map_of (rev (filter (\<lambda>(key, value). P key) xs)) k of
        Some v \<Rightarrow> Some v | None \<Rightarrow> map_of a k)"
proof (induction xs rule: rev_induct)
  case Nil
  then show ?case by simp
next
  case (snoc x xs)
  obtain key v where x: "x = (key, v)" by (cases x)
  show ?case using snoc
    by (simp add: x update_conv' split: option.splits)
qed

lemma distinct_foldl_update:
  "distinct (map fst a) \<Longrightarrow>
   distinct (map fst (foldl (\<lambda>obj (key, value). if P key then AList.update key value obj else obj) a xs))"
proof (induction xs rule: rev_induct)
  case Nil
  then show ?case by simp
next
  case (snoc x xs)
  obtain key v where x: "x = (key, v)" by (cases x)
  show ?case using snoc
    by (simp add: x distinct_update)
qed


lemma map_of_foldl_update_all:
  "map_of (foldl (\<lambda>obj (key, value). AList.update key value obj) a xs) k =
     (case map_of (rev xs) k of Some v \<Rightarrow> Some v | None \<Rightarrow> map_of a k)"
  using map_of_foldl_update [of "\<lambda>_. True" a xs k] by simp

lemma distinct_foldl_update_all:
  "distinct (map fst a) \<Longrightarrow>
   distinct (map fst (foldl (\<lambda>obj (key, value). AList.update key value obj) a xs))"
  using distinct_foldl_update [of a "\<lambda>_. True" xs] by simp

lemma map_of_rev_distinct:
  assumes "distinct (map fst xs)"
  shows "map_of (rev xs) k = map_of xs k"
proof -
  from assms have d: "distinct (map fst (rev xs))"
    by (simp add: rev_map [symmetric])
  have "(map_of (rev xs) k = Some v) = (map_of xs k = Some v)" for v
    using assms d by (simp only: map_of_eq_Some_iff set_rev)
  then show ?thesis
    by (cases "map_of xs k") (metis not_Some_eq, metis)
qed

lemma distinct_additionalParam:
  "distinct (map fst (additionalParam K b fd dsId dsType))"
  unfolding additionalParam_def fromEntries_def Let_def
  by (intro distinct_foldl_update)
     (simp add: distinct_update distinct_foldl_update_all)

lemma map_of_exploreUrlParams:
  "map_of (exploreUrlParams K b fd dsId dsType k0) key =
     (case map_of (additionalParam K b fd dsId dsType) key of
        Some v \<Rightarrow> Some v
      | None \<Rightarrow> if key = formDataKeyName K then Some k0 else None)"
  unfolding exploreUrlParams_def spread_def
  by (simp add: map_of_foldl_update_all map_of_rev_distinct distinct_additionalParam
        split: option.splits)

lemma map_of_filtered_params:
  assumes "distinct (map fst ps)" and "(key, v) \<in> set ps"
  shows "map_of (rev (filter (\<lambda>(key, value). key \<notin> R) ps)) key =
           (if key \<in> R then None else Some v)"
proof (cases "key \<in> R")
  case True
  then have "key \<notin> fst ` set (rev (filter (\<lambda>(key, value). key \<notin> R) ps))"
    by auto
  then have "map_of (rev (filter (\<lambda>(key, value). key \<notin> R) ps)) key = None"
    by (rule iffD2 [OF map_of_eq_None_iff])
  with True show ?thesis by simp
next
  case False
  from assms(1) have "distinct (map fst (rev (filter (\<lambda>(key, value). key \<notin> R) ps)))"
    by (simp add: rev_map [symmetric] distinct_map_filter)
  moreover from assms(2) False
  have "(key, v) \<in> set (rev (filter (\<lambda>(key, value). key \<notin> R) ps))"
    by simp
  ultimately have "map_of (rev (filter (\<lambda>(key, value). key \<notin> R) ps)) key = Some v"
    by (rule iffD2 [OF map_of_eq_Some_iff])
  with False show ?thesis by simp
qed

text \<open>
  C10. Let \<^verbatim>\<open>url_params\<close> of the form data hold the entry \<open>(key, v)\<close>. In the
  parameter object handed to the URL builder, a key that is not reserved carries
  \<open>v\<close>, whatever the address bar had under that name; a reserved key carries what
  it would carry if the form data had no \<^verbatim>\<open>url_params\<close> at all, so its entry is
  not copied.
\<close>

theorem url_params_precedence:
  assumes "url_params fd = Some ps" and "distinct (map fst ps)"
      and "(key, v) \<in> set ps"
  shows "map_of (exploreUrlParams K b fd dsId dsType k0) key =
           (if key \<in> set (RESERVED_CHART_URL_PARAMS K)
            then map_of (exploreUrlParams K b (fd\<lparr>url_params := None\<rparr>) dsId dsType k0) key
            else Some v)"
proof -
  have with_params: "map_of (additionalParam K b fd dsId dsType) key =
      (if key \<in> set (RESERVED_CHART_URL_PARAMS K)
       then map_of (additionalParam K b (fd\<lparr>url_params := None\<rparr>) dsId dsType) key
       else Some v)"
    unfolding additionalParam_def Let_def
    by (simp add: assms(1) map_of_foldl_update
          map_of_filtered_params [OF assms(2,3)])
  show ?thesis
    by (simp add: map_of_exploreUrlParams with_params)
qed

theorem url_params_precedence_witness:
  "map_of (exploreUrlParams sampleConstants (sampleBrowser ''/explore/'') sampleFormData
       (JNum 3) (JStr ''table'') (JStr ''fresh'')) ''foo'' = Some (JStr ''baz'') \<and>
   map_of (exploreUrlParams sampleConstants (sampleBrowser ''/explore/'') sampleFormData
       (JNum 3) (JStr ''table'') (JStr ''fresh'')) ''slice_id'' = Some (JNum 9)"
proof -
  have ps: "url_params sampleFormData = Some [(''foo'', JStr ''baz''), (''slice_id'', JNum 1)]"
    by (simp add: sampleFormData_def)
  have d: "distinct (map fst [(''foo'', JStr ''baz''), (''slice_id'', JNum 1)])"
    by simp
  have m1: "(''foo'', JStr ''baz'') \<in> set [(''foo'', JStr ''baz''), (''slice_id'', JNum 1)]"
    by simp
  have m2: "(''slice_id'', JNum 1) \<in> set [(''foo'', JStr ''baz''), (''slice_id'', JNum 1)]"
    by simp
  have bare: "map_of (exploreUrlParams sampleConstants (sampleBrowser ''/explore/'')
       (sampleFormData\<lparr>url_params := None\<rparr>)
       (JNum 3) (JStr ''table'') (JStr ''fresh'')) ''slice_id'' = Some (JNum 9)"
    by (simp add: exploreUrlParams_def additionalParam_def spread_def fromEntries_def
          sampleConstants_def sampleBrowser_def sampleFormData_def)
  from url_params_precedence [OF ps d m1, of sampleConstants "sampleBrowser ''/explore/''"
         "JNum 3" "JStr ''table''" "JStr ''fresh''"]
       url_params_precedence [OF ps d m2, of sampleConstants "sampleBrowser ''/explore/''"
         "JNum 3" "JStr ''table''" "JStr ''fresh''"] bare
  show ?thesis
    by (simp add: sampleConstants_def)
qed

text \<open>
  The parameters of the address bar are spread over the key: when the address bar
  already holds a form-data key, the parameter object keeps that one, also after a
  replace that stored the form data under a fresh key.
\<close>

lemma address_bar_key_kept:
  "map_of (exploreUrlParams sampleConstants (sampleBrowser ''/explore/'') sampleFormData
       (JNum 3) (JStr ''table'') (JStr ''fresh'')) ''form_data_key'' = Some (JStr ''old'')"
  by (simp add: exploreUrlParams_def additionalParam_def spread_def fromEntries_def
        sampleConstants_def sampleBrowser_def sampleFormData_def)

section \<open>Debounced persistence\<close>

lemma burst_pending:
  "burst wait ((t0, a0) # calls) \<Longrightarrow>
   debouncedCalls wait calls \<lparr>pendingCall = Some a0, lastCallTime = t0\<rparr> =
     ([], \<lparr>pendingCall = Some (snd (last ((t0, a0) # calls))),
           lastCallTime = fst (last ((t0, a0) # calls))\<rparr>)"
proof (induction calls arbitrary: t0 a0)
  case Nil
  then show ?case by simp
next
  case (Cons c calls)
  obtain t a where c: "c = (t, a)" by (cases c)
  from Cons.prems c have near: "t < t0 + wait" and rest: "burst wait ((t, a) # calls)"
    by simp_all
  from near have "debouncedCall wait t a \<lparr>pendingCall = Some a0, lastCallTime = t0\<rparr> =
      ([], \<lparr>pendingCall = Some a, lastCallTime = t\<rparr>)"
    by (simp add: debouncedCall_def timerExpired_def)
  with Cons.IH [OF rest] c show ?case by simp
qed

text \<open>
  C3. For a non-empty burst of calls of \<^verbatim>\<open>updateHistory\<close>, each less than 1000 ms
  after the one before, the persist routine runs exactly once, with the arguments of the
  last call.
\<close>

theorem debounce_coalesces:
  assumes "calls \<noteq> []" and "burst 1000 calls"
  shows "executedPersists calls = [snd (last calls)]"
proof -
  from assms(1) obtain t a rest where calls: "calls = (t, a) # rest"
    by (cases calls) auto
  have first: "debouncedCall 1000 t a idle = ([], \<lparr>pendingCall = Some a, lastCallTime = t\<rparr>)"
    by (simp add: debouncedCall_def timerExpired_def idle_def)
  from assms(2) calls have "burst 1000 ((t, a) # rest)" by simp
  from burst_pending [OF this] first calls
  have "debouncedCalls 1000 calls idle =
      ([], \<lparr>pendingCall = Some (snd (last calls)), lastCallTime = fst (last calls)\<rparr>)"
    by simp
  then show ?thesis
    by (simp add: executedPersists_def timerExpired_def)
qed

theorem debounce_coalesces_witness:
  "[(0, ''first''), (200, ''second'')] \<noteq> ([] :: (nat \<times> string) list) \<and>
   burst 1000 [(0, ''first''), (200, ''second'')] \<and>
   executedPersists [(0, ''first''), (200, ''second'')] = [''second'']"
  using debounce_coalesces [of "[(0, ''first''), (200, ''second'')]"] by simp

section \<open>Listeners across render passes\<close>

lemma domSteps_append: "domSteps (cs @ ds) ls = domSteps ds (domSteps cs ls)"
  by (induction cs arbitrary: ls) simp_all

lemma domTrace_append:
  "domTrace (cs @ ds) ls = domTrace cs ls @ domTrace ds (domSteps cs ls)"
  by (induction cs arbitrary: ls) simp_all

lemma mount_pass:
  assumes "renderPass h (unmounted, unmounted) = (calls, hooks)"
  shows "attached h hooks (domSteps calls noListeners) \<and>
         list_all atMostOne (domTrace calls noListeners)"
  using assms
  by (auto simp: renderPass_def effectPass_def unmounted_def Let_def attached_def
        popstateEffect_def keydownEffect_def noListeners_def atMostOne_def
        sourceListeners_def)

lemma update_pass:
  assumes "attached h0 hooks ls" and "renderPass h hooks = (calls, hooks')"
  shows "attached h hooks' (domSteps calls ls) \<and> list_all atMostOne (domTrace calls ls)"
proof -
  obtain s1 s2 where hooks: "hooks = (s1, s2)" by (cases hooks)
  obtain d1 where d1: "lastDeps s1 = Some d1"
    using assms(1) hooks by (auto simp: attached_def split: option.splits)
  obtain d2 where d2: "lastDeps s2 = Some d2"
    using assms(1) hooks by (auto simp: attached_def split: option.splits)
  show ?thesis
    using assms hooks d1 d2
    by (cases d1; cases d2)
       (auto simp: renderPass_def effectPass_def Let_def attached_def
        popstateEffect_def keydownEffect_def popstateCleanup_def keydownCleanup_def
        atMostOne_def sourceListeners_def split: if_splits)
qed


lemma later_passes:
  assumes "attached h0 hooks ls" and "renderPasses passes hooks = (calls, hooks')"
  shows "attached (last (h0 # passes)) hooks' (domSteps calls ls) \<and>
         list_all atMostOne (domTrace calls ls)"
  using assms
proof (induction passes arbitrary: h0 hooks ls calls hooks')
  case Nil
  then show ?case by simp
next
  case (Cons h passes)
  obtain calls1 hooks1 where one: "renderPass h hooks = (calls1, hooks1)"
    by (cases "renderPass h hooks")
  obtain calls2 hooks2 where more: "renderPasses passes hooks1 = (calls2, hooks2)"
    by (cases "renderPasses passes hooks1")
  from Cons.prems(2) one more have eq: "calls = calls1 @ calls2" "hooks' = hooks2"
    by simp_all
  from update_pass [OF Cons.prems(1) one]
  have a1: "attached h hooks1 (domSteps calls1 ls)"
    and t1: "list_all atMostOne (domTrace calls1 ls)" by simp_all
  from Cons.IH [OF a1 more]
  have "attached (last (h # passes)) hooks2 (domSteps calls2 (domSteps calls1 ls))"
    and "list_all atMostOne (domTrace calls2 (domSteps calls1 ls))" by simp_all
  with t1 eq show ?case
    by (simp add: domSteps_append domTrace_append)
qed

lemma all_passes:
  assumes "passes \<noteq> []" and "renderPasses passes (unmounted, unmounted) = (calls, hooks)"
  shows "attached (last passes) hooks (domSteps calls noListeners) \<and>
         list_all atMostOne (domTrace calls noListeners)"
proof -
  from assms(1) obtain h rest where passes: "passes = h # rest" by (cases passes) auto
  obtain calls1 hooks1 where one: "renderPass h (unmounted, unmounted) = (calls1, hooks1)"
    by (cases "renderPass h (unmounted, unmounted)")
  obtain calls2 hooks2 where more: "renderPasses rest hooks1 = (calls2, hooks2)"
    by (cases "renderPasses rest hooks1")
  from assms(2) passes one more have eq: "calls = calls1 @ calls2" "hooks = hooks2"
    by simp_all
  from mount_pass [OF one]
  have a1: "attached h hooks1 (domSteps calls1 noListeners)"
    and t1: "list_all atMostOne (domTrace calls1 noListeners)" by simp_all
  from later_passes [OF a1 more] t1 eq passes show ?thesis
    by (simp add: domSteps_append domTrace_append)
qed

lemma attached_listeners:
  assumes "attached h hooks ls"
  shows "sourceListeners Popstate ls = [fst h]" and "sourceListeners Keydown ls = [snd h]"
    and "sourceListeners Popstate (domSteps (unmount hooks) ls) = []"
    and "sourceListeners Keydown (domSteps (unmount hooks) ls) = []"
  using assms
  by (simp_all add: attached_def sourceListeners_def unmount_def popstateCleanup_def
        keydownCleanup_def)

text \<open>
  C4. After any non-empty run of render passes from mount, whatever handlers the passes
  bring, the popstate listeners are exactly the popstate handler of the last pass and
  the keydown listeners exactly its keydown handler. After every single call to
  \<^verbatim>\<open>addEventListener\<close> or \<^verbatim>\<open>removeEventListener\<close> along the way, no event type
  has more than one listener. Unmounting after the run leaves no listener. The
  statement holds for every run, hence after each pass of a longer run.
\<close>

theorem one_listener_per_source:
  assumes "passes \<noteq> []"
  shows "sourceListeners Popstate
           (domSteps (fst (renderPasses passes (unmounted, unmounted))) noListeners) =
           [fst (last passes)] \<and>
         sourceListeners Keydown
           (domSteps (fst (renderPasses passes (unmounted, unmounted))) noListeners) =
           [snd (last passes)] \<and>
         list_all atMostOne
           (domTrace (fst (renderPasses passes (unmounted, unmounted))) noListeners) \<and>
         sourceListeners Popstate
           (domSteps (unmount (snd (renderPasses passes (unmounted, unmounted))))
              (domSteps (fst (renderPasses passes (unmounted, unmounted))) noListeners)) =
           [] \<and>
         sourceListeners Keydown
           (domSteps (unmount (snd (renderPasses passes (unmounted, unmounted))))
              (domSteps (fst (renderPasses passes (unmounted, unmounted))) noListeners)) =
           []"
proof -
  obtain calls hooks where run: "renderPasses passes (unmounted, unmounted) = (calls, hooks)"
    by (cases "renderPasses passes (unmounted, unmounted)")
  from all_passes [OF assms run]
  have att: "attached (last passes) hooks (domSteps calls noListeners)"
    and tr: "list_all atMostOne (domTrace calls noListeners)" by simp_all
  from attached_listeners [OF att] tr show ?thesis
    by (simp add: run)
qed

theorem one_listener_per_source_witness:
  "[(1, 2), (3, 2), (3, 2), (3, 4)] \<noteq> ([] :: (handler \<times> handler) list) \<and>
   sourceListeners Popstate
     (domSteps (fst (renderPasses [(1, 2), (3, 2), (3, 2), (3, 4)] (unmounted, unmounted)))
        noListeners) = [3] \<and>
   sourceListeners Keydown
     (domSteps (fst (renderPasses [(1, 2), (3, 2), (3, 2), (3, 4)] (unmounted, unmounted)))
        noListeners) = [4] \<and>
   list_all atMostOne
     (domTrace (fst (renderPasses [(1, 2), (3, 2), (3, 2), (3, 4)] (unmounted, unmounted)))
        noListeners)"
proof -
  have ne: "[(1, 2), (3, 2), (3, 2), (3, 4)] \<noteq> ([] :: (handler \<times> handler) list)"
    by simp
  from one_listener_per_source [OF ne] ne show ?thesis
    by (simp del: renderPasses.simps)
qed

text \<open>
  When the keydown handler changes, the listener on \<^verbatim>\<open>document\<close> is removed by
  the cleanup of the previous run; the removal from \<^verbatim>\<open>window\<close> in the effect
  itself finds nothing to remove.
\<close>

lemma keydown_handler_replaced:
  "fst (renderPasses [(1, 2), (1, 3)] (unmounted, unmounted)) =
     [AddEventListener Window Popstate 1, AddEventListener Document Keydown 2,
      RemoveEventListener Window Popstate 1, RemoveEventListener Document Keydown 2,
      RemoveEventListener Window Popstate 1, AddEventListener Window Popstate 1,
      RemoveEventListener Window Keydown 2, AddEventListener Document Keydown 3]"
  by (simp add: renderPass_def effectPass_def unmounted_def Let_def popstateEffect_def
        keydownEffect_def popstateCleanup_def keydownCleanup_def)

section \<open>Plugin load edge\<close>

lemma truthy_isDynamicPluginLoading:
  "truthy (isDynamicPluginLoading p) = mountingTrue p"
  by (auto simp: isDynamicPluginLoading_def mountingTrue_def split: option.splits)

lemma pluginLoad_step:
  "(if effectDue previous isLoading
    then pluginLoadEffect (usePrevious previous) isLoading else []) =
   (if truthy (usePrevious previous) \<and> \<not> truthy isLoading
    then [DynamicPluginControlsReady] else [])"
  by (cases previous) (auto simp: pluginLoadEffect_def usePrevious_def)

lemma pluginLoadPasses_nth:
  "i < length plugins \<Longrightarrow>
   pluginLoadPasses previous plugins ! i =
     (if (if i = 0 then truthy (usePrevious previous) else mountingTrue (plugins ! (i - 1))) \<and>
         \<not> mountingTrue (plugins ! i)
      then [DynamicPluginControlsReady] else [])"
proof (induction plugins arbitrary: previous i)
  case Nil
  then show ?case by simp
next
  case (Cons p ps)
  show ?case
  proof (cases i)
    case 0
    then show ?thesis
      by (simp add: Let_def pluginLoad_step truthy_isDynamicPluginLoading)
  next
    case (Suc j)
    with Cons.prems have j: "j < length ps" by simp
    show ?thesis
    proof (cases j)
      case 0
      with Suc j Cons.IH [OF j, of "Some (isDynamicPluginLoading p)"] show ?thesis
        by (simp add: Let_def usePrevious_def truthy_isDynamicPluginLoading)
    next
      case (Suc k)
      with \<open>i = Suc j\<close> j Cons.IH [OF j, of "Some (isDynamicPluginLoading p)"] show ?thesis
        by (simp add: Let_def)
    qed
  qed
qed

text \<open>
  C8. In pass \<open>i\<close> of a run of render passes from mount, the effect dispatches
  \<^verbatim>\<open>dynamicPluginControlsReady\<close> exactly when there is a previous pass in which
  \<^verbatim>\<open>mounting\<close> was true and in pass \<open>i\<close> it is false or absent; in every other
  pass, the first one and a pass that starts loading included, it dispatches nothing.
\<close>

theorem plugin_load_edge:
  "i < length plugins \<Longrightarrow>
   pluginLoadPasses None plugins ! i =
     (if 0 < i \<and> mountingTrue (plugins ! (i - 1)) \<and> \<not> mountingTrue (plugins ! i)
      then [DynamicPluginControlsReady] else [])"
  by (cases "i = 0") (simp_all add: pluginLoadPasses_nth usePrevious_def)

theorem plugin_load_edge_witness:
  "(3::nat) < length [None, Some \<lparr>mounting = Some True\<rparr>, Some \<lparr>mounting = Some True\<rparr>,
        Some \<lparr>mounting = Some False\<rparr>] \<and>
   pluginLoadPasses None
     [None, Some \<lparr>mounting = Some True\<rparr>, Some \<lparr>mounting = Some True\<rparr>,
      Some \<lparr>mounting = Some False\<rparr>] ! 3 = [DynamicPluginControlsReady]"
  using plugin_load_edge [of 3 "[None, Some \<lparr>mounting = Some True\<rparr>,
      Some \<lparr>mounting = Some True\<rparr>, Some \<lparr>mounting = Some False\<rparr>]"]
  by (simp add: mountingTrue_def)

end
